theory Spec2Isabelle
  imports Main "HOL-Library.Word"
begin

section \<open>The nomad benchmark driver (bench/nomad/main.go)\<close>

text \<open>
  The driver has four commands; each handler talks to the outside world (the process
  arguments and environment, the Nomad API, the status sink, the file system). A handler
  is modelled as a function from the answers the outside world gives to the calls the
  handler makes (in order) and how it ends. Go's \<^verbatim>\<open>error\<close> values are
  carried as their message (what \<^verbatim>\<open>%v\<close> prints).
\<close>

subsection \<open>Data\<close>

type_synonym uint64 = "64 word"
type_synonym int64 = "64 word"
type_synonym error = string

text \<open>\<^verbatim>\<open>time.Now().UTC()\<close>: the clock is read by the environment; a reading is a number.\<close>
type_synonym time = nat

text \<open>\<^verbatim>\<open>api.QueryOptions\<close>, the two fields the status loop sets.\<close>
record QueryOptions =
  AllowStale :: bool
  WaitIndex :: uint64

text \<open>An element of the allocation listing; \<^verbatim>\<open>ClientStatus\<close> is a Go string.\<close>
record AllocationListStub =
  AllocID :: string
  ClientStatus :: string

text \<open>
  The two status constants of package \<^verbatim>\<open>nomad/structs\<close> that the loop switches on
  (the package is a dependency, its constants are these strings).
\<close>
definition AllocClientStatusPending :: string where
  "AllocClientStatusPending = ''pending''"

definition AllocClientStatusRunning :: string where
  "AllocClientStatusRunning = ''running''"

text \<open>
  \<^verbatim>\<open>api.Job\<close>: the identifier the run command assigns, and everything else the
  job carries.
\<close>
record Job =
  ID :: string
  Body :: string

text \<open>
  What one call of \<^verbatim>\<open>allocs.List(args)\<close> gives back: an error, or the listing with
  \<^verbatim>\<open>qm.LastIndex\<close>, together with the clock reading taken right after it.
\<close>
datatype list_result =
  ListErr error
  | ListOk "AllocationListStub list" uint64 time

text \<open>The calls a handler makes on the outside world, in the order it makes them.\<close>
datatype event =
  AllocsList QueryOptions
  | LogPrintf string
  | StatusSet string int64 time
  | JobsRegister Job
  | JobsList
  | JobsDeregister string
  | RemoveAll string

text \<open>
  How a handler ends: \<^verbatim>\<open>log.Fatalln\<close>/\<^verbatim>\<open>log.Fatalf\<close> print the message and exit
  with status 1; otherwise the handler returns its exit code, unless the Go run time
  stops it with a panic.
\<close>
datatype exit = Fatal string | Return int | Panic string

subsection \<open>The status command: \<^verbatim>\<open>handleStatus\<close>\<close>

text \<open>The variables that live across iterations of the wait loop.\<close>
record watch_state =
  lastPending :: int64
  lastRunning :: int64
  lastTotal :: int64
  index :: uint64

text \<open>
  \<^verbatim>\<open>var lastPending, lastRunning, lastTotal int64\<close> (Go zero values) and
  \<^verbatim>\<open>var index uint64 = 1\<close>.
\<close>
definition init_state :: watch_state where
  "init_state = \<lparr>lastPending = 0, lastRunning = 0, lastTotal = 0, index = 1\<rparr>"

text \<open>
  The range loop over the response: the two counters after it, from their values
  before it. The \<^verbatim>\<open>switch\<close> takes the first case that matches and has no default.
\<close>
fun count_statuses :: "AllocationListStub list \<Rightarrow> int64 \<times> int64 \<Rightarrow> int64 \<times> int64" where
  "count_statuses [] (allocsPending, allocsRunning) = (allocsPending, allocsRunning)"
| "count_statuses (alloc # resp) (allocsPending, allocsRunning) =
     (if ClientStatus alloc = AllocClientStatusPending
        then count_statuses resp (allocsPending + 1, allocsRunning)
      else if ClientStatus alloc = AllocClientStatusRunning
        then count_statuses resp (allocsPending, allocsRunning + 1)
      else count_statuses resp (allocsPending, allocsRunning))"

text \<open>
  ``Check the response'': \<^verbatim>\<open>allocsTotal := int64(len(resp))\<close> and the two counters,
  started at zero. The result is \<open>(allocsTotal, allocsPending, allocsRunning)\<close>.
\<close>
definition check_response :: "AllocationListStub list \<Rightarrow> int64 \<times> int64 \<times> int64" where
  "check_response resp = (of_nat (length resp), count_statuses resp (0, 0))"

text \<open>``Set up the args'': the query options built at the top of every iteration.\<close>
definition query_args :: "watch_state \<Rightarrow> QueryOptions" where
  "query_args st = \<lparr>AllowStale = True, WaitIndex = index st\<rparr>"

text \<open>
  One iteration of the wait loop, from the state at its top and the answer to its query.
  It gives the state at the top of the next iteration, the calls made, and the aggregates
  \<open>(allocsTotal, allocsPending, allocsRunning)\<close> when the iteration got as far as
  computing them (\<open>None\<close> when it left through a \<^verbatim>\<open>continue\<close> before that).
  The sink takes \<^verbatim>\<open>float64(v)\<close>; the event records the \<^verbatim>\<open>int64\<close> that is
  converted.
\<close>
definition iteration ::
  "watch_state \<Rightarrow> list_result \<Rightarrow> watch_state \<times> event list \<times> (int64 \<times> int64 \<times> int64) option" where
  "iteration st r =
     (let args = query_args st in
      case r of
        ListErr err \<Rightarrow>
          (st, [AllocsList args, LogPrintf (''failed querying allocations: '' @ err)], None)
      | ListOk resp LastIndex ts \<Rightarrow>
          if LastIndex = index st then (st, [AllocsList args], None)
          else
            let st1 = st\<lparr>index := LastIndex\<rparr>;
                (allocsTotal, allocsPending, allocsRunning) = check_response resp;
                (st2, set1) =
                  (if allocsTotal \<noteq> lastTotal st1
                   then (st1\<lparr>lastTotal := allocsTotal\<rparr>, [StatusSet ''placed'' allocsTotal ts])
                   else (st1, []));
                (st3, set2) =
                  (if allocsPending \<noteq> lastPending st2
                   then (st2\<lparr>lastPending := allocsPending\<rparr>, [StatusSet ''booting'' allocsPending ts])
                   else (st2, []));
                (st4, set3) =
                  (if allocsRunning \<noteq> lastRunning st3
                   then (st3\<lparr>lastRunning := allocsRunning\<rparr>, [StatusSet ''running'' allocsRunning ts])
                   else (st3, []))
            in (st4, AllocsList args # set1 @ set2 @ set3,
                Some (allocsTotal, allocsPending, allocsRunning)))"

text \<open>
  The wait loop \<^verbatim>\<open>for { ... }\<close> has no exit: no \<^verbatim>\<open>break\<close>, no \<^verbatim>\<open>return\<close>, and
  both \<^verbatim>\<open>continue\<close>s go back to its top. A run of it is therefore observed through its
  finite prefixes: \<open>wait_loop st rs\<close> is the state reached and the calls made once the
  queries answered by \<open>rs\<close>, in this order, have been processed; the loop is then at its
  top again, about to issue the next query.
\<close>
fun wait_loop :: "watch_state \<Rightarrow> list_result list \<Rightarrow> watch_state \<times> event list" where
  "wait_loop st [] = (st, [])"
| "wait_loop st (r # rs) =
     (case iteration st r of
        (st', evs, _) \<Rightarrow> (case wait_loop st' rs of (st'', evs') \<Rightarrow> (st'', evs @ evs')))"

text \<open>
  What the status command has come to: a fatal exit during its set-up, or its wait loop
  at the top of an iteration with the given state, the given calls made so far.
\<close>
datatype status_run = StatusFatal string | Waiting watch_state "event list"

text \<open>
  \<^verbatim>\<open>handleStatus\<close>, given \<^verbatim>\<open>os.Args\<close>, the error (if any) of \<^verbatim>\<open>api.NewClient\<close>,
  the error (if any) of \<^verbatim>\<open>status.NewClient(os.Args[2])\<close>, and the answers to the
  queries of the loop.
\<close>
definition handleStatus ::
  "string list \<Rightarrow> error option \<Rightarrow> (string \<Rightarrow> error option) \<Rightarrow> list_result list \<Rightarrow> status_run" where
  "handleStatus Args NewClient statusNewClient rs =
     (if length Args \<noteq> 3 then StatusFatal ''usage: nomad-bench status <addr>''
      else case NewClient of
        Some err \<Rightarrow> StatusFatal (''failed creating nomad client: '' @ err)
      | None \<Rightarrow>
          (case statusNewClient (Args ! 2) of
             Some err \<Rightarrow> StatusFatal (''failed contacting status server: '' @ err)
           | None \<Rightarrow> (case wait_loop init_state rs of (st, evs) \<Rightarrow> Waiting st evs)))"

subsection \<open>The run command: \<^verbatim>\<open>handleRun\<close>\<close>

text \<open>
  \<^verbatim>\<open>strconv.Atoi\<close> of the Go standard library, on the 64-bit \<^verbatim>\<open>int\<close> of the
  build target (\<^verbatim>\<open>GOARCH=amd64\<close>): an optional sign, then one or more decimal digits
  and nothing else; a value outside the range of \<^verbatim>\<open>int\<close> is an error too.
  \<open>None\<close> stands for a non-nil error.
\<close>
definition digit_val :: "char \<Rightarrow> nat option" where
  "digit_val c =
     (let b = (of_char c :: nat)
      in if of_char CHR ''0'' \<le> b \<and> b \<le> of_char CHR ''9''
         then Some (b - of_char CHR ''0'') else None)"

fun ParseUint :: "string \<Rightarrow> nat \<Rightarrow> nat option" where
  "ParseUint [] n = Some n"
| "ParseUint (c # cs) n =
     (case digit_val c of None \<Rightarrow> None | Some d \<Rightarrow> ParseUint cs (n * 10 + d))"

definition Atoi :: "string \<Rightarrow> int option" where
  "Atoi s =
     (case s of
        [] \<Rightarrow> None
      | c # cs \<Rightarrow>
          (let neg = (c = CHR ''-'');
               ds = (if c = CHR ''+'' \<or> c = CHR ''-'' then cs else s)
           in if ds = [] then None
              else (case ParseUint ds 0 of
                      None \<Rightarrow> None
                    | Some un \<Rightarrow>
                        if \<not> neg \<and> un \<ge> 2 ^ 63 then None
                        else if neg \<and> un > 2 ^ 63 then None
                        else Some (if neg then - int un else int un))))"

text \<open>\<^verbatim>\<open>os.Getenv\<close>: the value of the variable, empty when the variable is not set.\<close>
definition Getenv :: "(string \<rightharpoonup> string) \<Rightarrow> string \<Rightarrow> string" where
  "Getenv env k = (case env k of None \<Rightarrow> [] | Some v \<Rightarrow> v)"

text \<open>What \<^verbatim>\<open>%d\<close> prints for an integer.\<close>
fun digit_chars :: "nat \<Rightarrow> string" where
  "digit_chars n =
     (if n < 10 then [''0123456789'' ! n]
      else digit_chars (n div 10) @ [''0123456789'' ! (n mod 10)])"

definition Sprintf_d :: "int \<Rightarrow> string" where
  "Sprintf_d i = (if i < 0 then CHR ''-'' # digit_chars (nat (- i)) else digit_chars (nat i))"

text \<open>
  \<^verbatim>\<open>convertStructJob\<close>. The two \<^verbatim>\<open>gob\<close> steps are the library's:
  \<open>Encode in\<close> is the buffer it leaves and its error, \<open>Decode buf\<close> is the pointer it
  leaves in \<^verbatim>\<open>apiJob\<close> (\<open>None\<close> is \<^verbatim>\<open>nil\<close>; on a failure it may have stored
  any part of a job there) and its error. The result is the pair the function returns.
  The two \<^verbatim>\<open>gob.Register\<close> calls only set up what the two steps can resolve.
\<close>
definition convertStructJob ::
  "('j \<Rightarrow> 'b \<times> error option) \<Rightarrow> ('b \<Rightarrow> Job option \<times> error option) \<Rightarrow> 'j
     \<Rightarrow> Job option \<times> error option" where
  "convertStructJob Encode Decode in' =
     (case Encode in' of
        (buf, Some err) \<Rightarrow> (None, Some err)
      | (buf, None) \<Rightarrow>
          (case Decode buf of
             (apiJob, Some err) \<Rightarrow> (None, Some err)
           | (apiJob, None) \<Rightarrow> (apiJob, None)))"

text \<open>
  The submission loop \<^verbatim>\<open>for i := 0; i < numJobs; i++\<close>, from the value of \<open>i\<close>.
  \<open>Register n j\<close> is the error (if any) of the call number \<open>n\<close> of
  \<^verbatim>\<open>jobs.Register\<close>, made with job \<open>j\<close>; the loop makes its calls one per value of
  \<open>i\<close>, from 0. Writing the ID through a nil \<^verbatim>\<open>apiJob\<close> is a panic.
\<close>
function register_loop ::
  "(nat \<Rightarrow> Job \<Rightarrow> error option) \<Rightarrow> Job option \<Rightarrow> int \<Rightarrow> int \<Rightarrow> exit \<times> event list" where
  "register_loop Register apiJob numJobs i =
     (if i < numJobs then
        (case apiJob of
           None \<Rightarrow> (Panic ''invalid memory address or nil pointer dereference'', [])
         | Some j \<Rightarrow>
             let j' = j\<lparr>ID := ''job-'' @ Sprintf_d i\<rparr> in
             (case Register (nat i) j' of
                Some err \<Rightarrow> (Fatal (''failed registering jobs: '' @ err), [JobsRegister j'])
              | None \<Rightarrow>
                  (case register_loop Register (Some j') numJobs (i + 1) of
                     (x, evs) \<Rightarrow> (x, JobsRegister j' # evs))))
      else (Return 0, []))"
  by pat_completeness auto
termination
  by (relation "measure (\<lambda>(Register, apiJob, numJobs, i). nat (numJobs - i))") auto

declare register_loop.simps [simp del]

text \<open>
  \<^verbatim>\<open>handleRun\<close>, given \<^verbatim>\<open>os.Args\<close>, the environment variables, the result of
  \<^verbatim>\<open>jobspec.ParseFile\<close>, the two \<^verbatim>\<open>gob\<close> steps, the error (if any) of
  \<^verbatim>\<open>api.NewClient\<close> and the answers of \<^verbatim>\<open>jobs.Register\<close>.
\<close>
definition handleRun ::
  "string list \<Rightarrow> (string \<rightharpoonup> string) \<Rightarrow> (string \<Rightarrow> error + 'j) \<Rightarrow>
   ('j \<Rightarrow> 'b \<times> error option) \<Rightarrow> ('b \<Rightarrow> Job option \<times> error option) \<Rightarrow>
   error option \<Rightarrow> (nat \<Rightarrow> Job \<Rightarrow> error option) \<Rightarrow> exit \<times> event list" where
  "handleRun Args env ParseFile Encode Decode NewClient Register =
     (if length Args \<noteq> 2 then (Fatal ''usage: nomad-bench run'', [])
      else
        case Atoi (Getenv env ''NOMAD_NUM_JOBS'') of
          None \<Rightarrow> (Fatal ''NOMAD_NUM_JOBS must be numeric'', [])
        | Some numJobs \<Rightarrow>
            (case ParseFile ''job.nomad'' of
               Inl err \<Rightarrow> (Fatal (''failed parsing job file: '' @ err), [])
             | Inr job \<Rightarrow>
                 (case convertStructJob Encode Decode job of
                    (_, Some err) \<Rightarrow> (Fatal (''failed converting job: '' @ err), [])
                  | (apiJob, None) \<Rightarrow>
                      (case NewClient of
                         Some err \<Rightarrow> (Fatal (''failed creating nomad client: '' @ err), [])
                       | None \<Rightarrow> register_loop Register apiJob numJobs 0))))"

subsection \<open>The teardown command: \<^verbatim>\<open>handleTeardown\<close>\<close>

text \<open>An element of the job listing; the loop reads its \<^verbatim>\<open>ID\<close> only.\<close>
record JobListStub =
  StubID :: string
  StubName :: string

text \<open>
  The loop over the listed jobs, from the number of calls made so far: the error that
  stopped it (if any) and the calls made. \<open>Deregister n id\<close> is the error (if any) of
  the call number \<open>n\<close> of \<^verbatim>\<open>Deregister\<close>, made with \<open>id\<close>.
\<close>
fun deregister_loop ::
  "(nat \<Rightarrow> string \<Rightarrow> error option) \<Rightarrow> JobListStub list \<Rightarrow> nat \<Rightarrow> error option \<times> event list" where
  "deregister_loop Deregister [] n = (None, [])"
| "deregister_loop Deregister (job # jobs) n =
     (case Deregister n (StubID job) of
        Some err \<Rightarrow> (Some err, [JobsDeregister (StubID job)])
      | None \<Rightarrow>
          (case deregister_loop Deregister jobs (Suc n) of
             (r, evs) \<Rightarrow> (r, JobsDeregister (StubID job) # evs)))"

text \<open>
  \<^verbatim>\<open>handleTeardown\<close>, given \<^verbatim>\<open>os.Args\<close>, the error (if any) of \<^verbatim>\<open>api.NewClient\<close>,
  the result of \<^verbatim>\<open>Jobs().List\<close>, the answers of \<^verbatim>\<open>Deregister\<close> and the error (if
  any) of \<^verbatim>\<open>os.RemoveAll\<close> on a path.
\<close>
definition handleTeardown ::
  "string list \<Rightarrow> error option \<Rightarrow> error + JobListStub list \<Rightarrow>
   (nat \<Rightarrow> string \<Rightarrow> error option) \<Rightarrow> (string \<Rightarrow> error option) \<Rightarrow> exit \<times> event list" where
  "handleTeardown Args NewClient List Deregister osRemoveAll =
     (if length Args \<noteq> 3 then (Fatal ''usage: nomad-bench teardown <dir>'', [])
      else
        case NewClient of
          Some err \<Rightarrow> (Fatal (''failed creating nomad client: '' @ err), [])
        | None \<Rightarrow>
            (case List of
               Inl err \<Rightarrow> (Fatal (''failed listing jobs: '' @ err), [JobsList])
             | Inr jobs \<Rightarrow>
                 (case deregister_loop Deregister jobs 0 of
                    (Some err, evs) \<Rightarrow>
                      (Fatal (''failed deregistering job: '' @ err), JobsList # evs)
                  | (None, evs) \<Rightarrow>
                      (case osRemoveAll (Args ! 2) of
                         Some err \<Rightarrow>
                           (Fatal (''failed cleaning up temp dir: '' @ err),
                            JobsList # evs @ [RemoveAll (Args ! 2)])
                       | None \<Rightarrow> (Return 0, JobsList # evs @ [RemoveAll (Args ! 2)])))))"

subsection \<open>Observations of a run, and the specification's notions\<close>

text \<open>
  The cursor at the top of each iteration of a run, the first being the starting state's,
  the last being the one left by the last answer.
\<close>
fun cursor_trace :: "watch_state \<Rightarrow> list_result list \<Rightarrow> uint64 list" where
  "cursor_trace st [] = [index st]"
| "cursor_trace st (r # rs) = index st # cursor_trace (fst (iteration st r)) rs"

text \<open>The indices the orchestrator reported, in order (a failed query reports none).\<close>
fun reported :: "list_result list \<Rightarrow> uint64 list" where
  "reported [] = []"
| "reported (ListErr err # rs) = reported rs"
| "reported (ListOk resp LastIndex ts # rs) = LastIndex # reported rs"

text \<open>
  The value most recently sent to the sink under a name among the calls made, \<open>v\<close>
  when there is none.
\<close>
fun last_set :: "string \<Rightarrow> int64 \<Rightarrow> event list \<Rightarrow> int64" where
  "last_set name v [] = v"
| "last_set name v (StatusSet n x ts # evs) = last_set name (if n = name then x else v) evs"
| "last_set name v (e # evs) = last_set name v evs"

text \<open>The samples sent to the sink among the calls made, in order.\<close>
fun samples :: "event list \<Rightarrow> (string \<times> int64 \<times> time) list" where
  "samples [] = []"
| "samples (StatusSet n x ts # evs) = (n, x, ts) # samples evs"
| "samples (e # evs) = samples evs"

text \<open>
  The classification of an allocation by its client status, as the specification words
  it: pending, running, or anything else.
\<close>
datatype status_class = Pending | Running | Other

definition classify :: "AllocationListStub \<Rightarrow> status_class" where
  "classify alloc =
     (if ClientStatus alloc = ''pending'' then Pending
      else if ClientStatus alloc = ''running'' then Running
      else Other)"

definition count_class :: "status_class \<Rightarrow> AllocationListStub list \<Rightarrow> nat" where
  "count_class c resp = length (filter (\<lambda>alloc. classify alloc = c) resp)"

text \<open>
  ``Numeric'', as the specification words the input of the run command: an optional
  sign followed by one or more decimal digits.
\<close>
definition numeric :: "string \<Rightarrow> bool" where
  "numeric s =
     (case s of
        [] \<Rightarrow> False
      | c # cs \<Rightarrow>
          (let ds = (if c = CHR ''+'' \<or> c = CHR ''-'' then cs else s)
           in ds \<noteq> [] \<and> list_all (\<lambda>d. digit_val d \<noteq> None) ds))"

text \<open>
  The registrations of one job under the identifiers \<open>job-i\<close>, \<open>\<dots>\<close>, \<open>job-k\<close>, in
  this order.
\<close>
definition register_calls :: "Job \<Rightarrow> int \<Rightarrow> int \<Rightarrow> event list" where
  "register_calls apiJob i k =
     map (\<lambda>n. JobsRegister (apiJob\<lparr>ID := ''job-'' @ Sprintf_d n\<rparr>)) [i..k]"

section \<open>Properties of the wait loop\<close>

lemma wait_loop_Cons:
  "wait_loop st (r # rs) =
     (fst (wait_loop (fst (iteration st r)) rs),
      fst (snd (iteration st r)) @ snd (wait_loop (fst (iteration st r)) rs))"
  by (simp split: prod.splits)

lemma iteration_index:
  "index (fst (iteration st r)) =
     (case r of ListErr err \<Rightarrow> index st | ListOk resp LastIndex ts \<Rightarrow> LastIndex)"
  by (simp add: iteration_def Let_def split: list_result.splits prod.splits)

lemma cursor_trace_Cons: "cursor_trace st rs = index st # tl (cursor_trace st rs)"
  by (cases rs) simp_all

lemma wait_loop_index: "index (fst (wait_loop st rs)) = last (index st # reported rs)"
proof (induction rs arbitrary: st)
  case Nil
  then show ?case by simp
next
  case (Cons r rs)
  show ?case
  proof (cases r)
    case (ListErr err)
    then show ?thesis
      using Cons [of st] by (simp add: wait_loop_Cons iteration_def del: wait_loop.simps)
  next
    case (ListOk resp LastIndex ts)
    then show ?thesis
      using Cons [of "fst (iteration st r)"] iteration_index [of st r]
      by (simp add: wait_loop_Cons del: wait_loop.simps)
  qed
qed

lemma sorted_cursor_trace:
  "sorted (index st # reported rs) \<Longrightarrow> sorted (cursor_trace st rs)"
proof (induction rs arbitrary: st)
  case Nil
  then show ?case by simp
next
  case (Cons r rs)
  let ?st' = "fst (iteration st r)"
  have step: "index st \<le> index ?st'" and rest: "sorted (index ?st' # reported rs)"
    using Cons.prems iteration_index [of st r] by (cases r; simp)+
  have "sorted (cursor_trace ?st' rs)"
    using rest by (rule Cons.IH)
  moreover obtain ys where ys: "cursor_trace ?st' rs = index ?st' # ys"
    using cursor_trace_Cons by blast
  ultimately show ?case
    using step by auto
qed

lemma last_set_append:
  "last_set name v (xs @ ys) = last_set name (last_set name v xs) ys"
  by (induction name v xs rule: last_set.induct) simp_all

lemma iteration_caches:
  "lastTotal (fst (iteration st r)) = last_set ''placed'' (lastTotal st) (fst (snd (iteration st r)))"
  "lastPending (fst (iteration st r)) = last_set ''booting'' (lastPending st) (fst (snd (iteration st r)))"
  "lastRunning (fst (iteration st r)) = last_set ''running'' (lastRunning st) (fst (snd (iteration st r)))"
  by (simp_all add: iteration_def Let_def split: list_result.splits prod.splits)

lemma wait_loop_caches:
  "lastTotal (fst (wait_loop st rs)) = last_set ''placed'' (lastTotal st) (snd (wait_loop st rs))
 \<and> lastPending (fst (wait_loop st rs)) = last_set ''booting'' (lastPending st) (snd (wait_loop st rs))
 \<and> lastRunning (fst (wait_loop st rs)) = last_set ''running'' (lastRunning st) (snd (wait_loop st rs))"
proof (induction rs arbitrary: st)
  case Nil
  then show ?case by simp
next
  case (Cons r rs)
  show ?case
    using Cons [of "fst (iteration st r)"]
    by (simp add: wait_loop_Cons last_set_append iteration_caches del: wait_loop.simps)
qed

lemma iteration_samples:
  assumes "LastIndex \<noteq> index st"
    and "check_response resp = (allocsTotal, allocsPending, allocsRunning)"
  shows "samples (fst (snd (iteration st (ListOk resp LastIndex ts)))) =
      (if allocsTotal \<noteq> lastTotal st then [(''placed'', allocsTotal, ts)] else []) @
      (if allocsPending \<noteq> lastPending st then [(''booting'', allocsPending, ts)] else []) @
      (if allocsRunning \<noteq> lastRunning st then [(''running'', allocsRunning, ts)] else [])"
  using assms by (simp add: iteration_def Let_def)

lemma count_statuses_counts:
  "count_statuses resp (p, r) =
     (p + of_nat (count_class Pending resp), r + of_nat (count_class Running resp))"
  by (induction resp arbitrary: p r)
    (simp_all add: count_class_def classify_def AllocClientStatusPending_def
      AllocClientStatusRunning_def)

lemma count_class_sum:
  "length resp = count_class Pending resp + count_class Running resp + count_class Other resp"
proof (induction resp)
  case Nil
  then show ?case by (simp add: count_class_def)
next
  case (Cons a resp)
  then show ?case by (cases "classify a") (simp_all add: count_class_def)
qed

lemma sint_of_nat_small: "n < 2 ^ 63 \<Longrightarrow> sint (of_nat n :: int64) = int n"
proof -
  assume "n < 2 ^ 63"
  then have "int n < 2 ^ 63" by (metis of_nat_less_iff of_nat_numeral of_nat_power)
  then show ?thesis
    by (simp add: signed_of_nat signed_take_bit_int_eq_self)
qed

lemma iteration_calls_hd:
  "fst (snd (iteration st r)) = AllocsList (query_args st) # tl (fst (snd (iteration st r)))"
  by (simp add: iteration_def Let_def split: list_result.splits prod.splits)

lemma wait_loop_first_call:
  "snd (wait_loop st (r # rs)) = AllocsList (query_args st) # tl (snd (wait_loop st (r # rs)))"
proof -
  obtain evs where "fst (snd (iteration st r)) = AllocsList (query_args st) # evs"
    using iteration_calls_hd by blast
  then show ?thesis
    by (simp add: wait_loop_Cons del: wait_loop.simps)
qed

text \<open>
  C1 (as amended). After an iteration the cursor is the index the query reported, and
  unchanged when the query failed; so after any run it is the index most recently
  reported (the starting cursor when none was), whether that is greater or smaller than
  the cursor held before. When the reported indices, from the starting cursor on, are
  non-decreasing, so are the cursors at the tops of the iterations.
\<close>
theorem cursor_follows_reported_index:
  "index (fst (iteration st r)) =
     (case r of ListErr err \<Rightarrow> index st | ListOk resp LastIndex ts \<Rightarrow> LastIndex)
   \<and> index (fst (wait_loop st rs)) = last (index st # reported rs)
   \<and> (sorted (index st # reported rs) \<longrightarrow> sorted (cursor_trace st rs))"
  using iteration_index wait_loop_index sorted_cursor_trace by blast

theorem cursor_follows_reported_index_witness:
  "sorted (index init_state # reported [ListOk [] 5 10, ListErr ''timeout'', ListOk [] 5 11, ListOk [] 7 12])
   \<and> sorted (cursor_trace init_state [ListOk [] 5 10, ListErr ''timeout'', ListOk [] 5 11, ListOk [] 7 12])
   \<and> index (fst (wait_loop init_state [ListOk [] 5 10, ListErr ''timeout'', ListOk [] 5 11, ListOk [] 7 12])) = 7"
  using cursor_follows_reported_index [of init_state "ListErr ''timeout''"
      "[ListOk [] 5 10, ListErr ''timeout'', ListOk [] 5 11, ListOk [] 7 12]"]
  by (simp add: init_state_def)

text \<open>
  C1 as stated fails: from the starting state, a report of index 5 followed by a report of
  index 3 takes the cursor from 1 to 5 and back to 3.
\<close>
theorem cursor_rolls_back_counterexample:
  "cursor_trace init_state [ListOk [] 5 10, ListOk [] 3 11] = [1, 5, 3]
   \<and> \<not> sorted (cursor_trace init_state [ListOk [] 5 10, ListOk [] 3 11])"
  by (simp add: init_state_def iteration_def query_args_def check_response_def)

text \<open>
  C2 (as amended). The status command has processed the answers \<open>rs\<close>, and its next
  query reports a new index with a response whose aggregates are \<open>allocsTotal\<close>,
  \<open>allocsPending\<close> and \<open>allocsRunning\<close>. Then the samples this iteration sends are
  exactly, in the order placed, booting, running, those whose value differs from the value
  last sent under that name, or from 0 when nothing was sent under it yet.
\<close>
theorem emit_iff_differs_from_cache:
  assumes "wait_loop init_state rs = (st, evs)"
    and "LastIndex \<noteq> index st"
    and "check_response resp = (allocsTotal, allocsPending, allocsRunning)"
  shows "samples (fst (snd (iteration st (ListOk resp LastIndex ts)))) =
      (if allocsTotal \<noteq> last_set ''placed'' 0 evs then [(''placed'', allocsTotal, ts)] else []) @
      (if allocsPending \<noteq> last_set ''booting'' 0 evs then [(''booting'', allocsPending, ts)] else []) @
      (if allocsRunning \<noteq> last_set ''running'' 0 evs then [(''running'', allocsRunning, ts)] else [])"
proof -
  have "lastTotal st = last_set ''placed'' 0 evs"
    and "lastPending st = last_set ''booting'' 0 evs"
    and "lastRunning st = last_set ''running'' 0 evs"
    using wait_loop_caches [of init_state rs] assms(1) by (simp_all add: init_state_def)
  then show ?thesis
    using iteration_samples [OF assms(2,3)] by simp
qed

theorem emit_iff_differs_from_cache_witness:
  "samples (fst (snd (iteration
      \<lparr>lastPending = 1, lastRunning = 2, lastTotal = 3, index = 5\<rparr>
      (ListOk [\<lparr>AllocID = ''a'', ClientStatus = ''running''\<rparr>,
               \<lparr>AllocID = ''b'', ClientStatus = ''pending''\<rparr>,
               \<lparr>AllocID = ''c'', ClientStatus = ''running''\<rparr>,
               \<lparr>AllocID = ''d'', ClientStatus = ''running''\<rparr>] 6 11)))) =
    [(''placed'', 4, 11), (''running'', 3, 11)]"
proof -
  have run: "wait_loop init_state
      [ListOk [\<lparr>AllocID = ''a'', ClientStatus = ''running''\<rparr>,
               \<lparr>AllocID = ''b'', ClientStatus = ''pending''\<rparr>,
               \<lparr>AllocID = ''c'', ClientStatus = ''running''\<rparr>] 5 10] =
      (\<lparr>lastPending = 1, lastRunning = 2, lastTotal = 3, index = 5\<rparr>,
       [AllocsList \<lparr>AllowStale = True, WaitIndex = 1\<rparr>, StatusSet ''placed'' 3 10,
        StatusSet ''booting'' 1 10, StatusSet ''running'' 2 10])"
    by (simp add: init_state_def iteration_def query_args_def check_response_def
        AllocClientStatusPending_def AllocClientStatusRunning_def)
  have idx: "(6 :: uint64) \<noteq> index \<lparr>lastPending = 1, lastRunning = 2, lastTotal = 3, index = 5\<rparr>"
    by simp
  have agg: "check_response
      [\<lparr>AllocID = ''a'', ClientStatus = ''running''\<rparr>,
       \<lparr>AllocID = ''b'', ClientStatus = ''pending''\<rparr>,
       \<lparr>AllocID = ''c'', ClientStatus = ''running''\<rparr>,
       \<lparr>AllocID = ''d'', ClientStatus = ''running''\<rparr>] = (4, 1, 3)"
    by (simp add: check_response_def AllocClientStatusPending_def AllocClientStatusRunning_def)
  show ?thesis
    using emit_iff_differs_from_cache [OF run idx agg, of 11] by simp
qed

text \<open>
  C2 as stated fails: the first response observed has one running allocation, so the
  first value observed for booting is 0, and no sample is sent for booting.
\<close>
theorem first_zero_not_emitted_counterexample:
  "handleStatus [''nomad-bench'', ''status'', ''127.0.0.1:8080''] None (\<lambda>addr. None)
     [ListOk [\<lparr>AllocID = ''a'', ClientStatus = ''running''\<rparr>] 5 10] =
   Waiting \<lparr>lastPending = 0, lastRunning = 1, lastTotal = 1, index = 5\<rparr>
     [AllocsList \<lparr>AllowStale = True, WaitIndex = 1\<rparr>,
      StatusSet ''placed'' 1 10, StatusSet ''running'' 1 10]"
  by (simp add: handleStatus_def init_state_def iteration_def query_args_def check_response_def
      AllocClientStatusPending_def AllocClientStatusRunning_def)

text \<open>
  C3. An iteration whose query succeeds with \<^verbatim>\<open>qm.LastIndex\<close> equal to the cursor held
  makes no call but the query itself (no sample is emitted), computes no aggregates and
  leaves the state, so the cursor, as it was; the loop goes on with the next query from
  that same state.
\<close>
theorem same_index_is_noop:
  assumes "LastIndex = index st"
  shows "iteration st (ListOk resp LastIndex ts) =
           (st, [AllocsList \<lparr>AllowStale = True, WaitIndex = index st\<rparr>], None)
       \<and> wait_loop st (ListOk resp LastIndex ts # rs) =
           (fst (wait_loop st rs),
            AllocsList \<lparr>AllowStale = True, WaitIndex = index st\<rparr> # snd (wait_loop st rs))"
proof -
  have it: "iteration st (ListOk resp LastIndex ts) =
      (st, [AllocsList \<lparr>AllowStale = True, WaitIndex = index st\<rparr>], None)"
    using assms by (simp add: iteration_def query_args_def)
  then show ?thesis
    by (simp del: wait_loop.simps add: wait_loop_Cons)
qed

theorem same_index_is_noop_witness:
  "iteration \<lparr>lastPending = 1, lastRunning = 2, lastTotal = 3, index = 5\<rparr>
     (ListOk [\<lparr>AllocID = ''a'', ClientStatus = ''running''\<rparr>] 5 7) =
     (\<lparr>lastPending = 1, lastRunning = 2, lastTotal = 3, index = 5\<rparr>,
      [AllocsList \<lparr>AllowStale = True, WaitIndex = 5\<rparr>], None)"
  using same_index_is_noop [of 5 "\<lparr>lastPending = 1, lastRunning = 2, lastTotal = 3, index = 5\<rparr>"
      "[\<lparr>AllocID = ''a'', ClientStatus = ''running''\<rparr>]" 7 "[]"]
  by simp

text \<open>
  C4. An iteration whose query fails logs the error, sends no sample, computes no
  aggregates and leaves the state as it was; the loop goes on with the next answer from
  that same state, and the query it issues next carries the same options, so the same
  \<^verbatim>\<open>WaitIndex\<close>, as the query that failed.
\<close>
theorem query_error_is_skipped:
  "iteration st (ListErr err) =
     (st, [AllocsList (query_args st), LogPrintf (''failed querying allocations: '' @ err)], None)
   \<and> wait_loop st (ListErr err # rs) =
     (fst (wait_loop st rs),
      AllocsList (query_args st) # LogPrintf (''failed querying allocations: '' @ err) #
      snd (wait_loop st rs))
   \<and> snd (wait_loop st (ListErr err # r # rs)) =
      AllocsList (query_args st) # LogPrintf (''failed querying allocations: '' @ err) #
      AllocsList (query_args st) # tl (snd (wait_loop st (r # rs)))"
proof -
  have it: "iteration st (ListErr err) =
     (st, [AllocsList (query_args st), LogPrintf (''failed querying allocations: '' @ err)], None)"
    by (simp add: iteration_def)
  have step: "wait_loop st (ListErr err # rs') =
     (fst (wait_loop st rs'),
      AllocsList (query_args st) # LogPrintf (''failed querying allocations: '' @ err) #
      snd (wait_loop st rs'))" for rs'
    using it by (simp add: wait_loop_Cons del: wait_loop.simps)
  have "snd (wait_loop st (ListErr err # r # rs)) =
      AllocsList (query_args st) # LogPrintf (''failed querying allocations: '' @ err) #
      snd (wait_loop st (r # rs))"
    by (simp only: step snd_conv)
  also have "snd (wait_loop st (r # rs)) =
      AllocsList (query_args st) # tl (snd (wait_loop st (r # rs)))"
    by (rule wait_loop_first_call)
  finally show ?thesis
    using it step [of rs] by (simp del: wait_loop.simps)
qed

theorem query_error_is_skipped_witness:
  "wait_loop \<lparr>lastPending = 1, lastRunning = 2, lastTotal = 3, index = 5\<rparr>
     [ListErr ''EOF'', ListOk [] 5 10] =
   (\<lparr>lastPending = 1, lastRunning = 2, lastTotal = 3, index = 5\<rparr>,
    [AllocsList \<lparr>AllowStale = True, WaitIndex = 5\<rparr>,
     LogPrintf ''failed querying allocations: EOF'',
     AllocsList \<lparr>AllowStale = True, WaitIndex = 5\<rparr>])"
  using query_error_is_skipped [of "\<lparr>lastPending = 1, lastRunning = 2, lastTotal = 3, index = 5\<rparr>"
      "''EOF''" "[ListOk [] 5 10]" "ListOk [] 5 10"]
  by (simp add: iteration_def query_args_def)

text \<open>
  C8. For the aggregates computed from a response: the total is the number of
  allocations, the pending and running aggregates are the numbers of allocations classified
  pending and running, every allocation falls in exactly one of the three classes, and the
  total is the sum of the pending, running and other counts. This holds in the 64-bit
  arithmetic of the code and, for a response of fewer than \<open>2\<^sup>6\<^sup>3\<close> allocations
  (every Go slice), of the signed values read as integers. These are the aggregates of an
  iteration whose query reported a new index.
\<close>
theorem aggregates_partition:
  assumes "check_response resp = (allocsTotal, allocsPending, allocsRunning)"
  shows "allocsTotal = of_nat (length resp)
     \<and> allocsPending = of_nat (count_class Pending resp)
     \<and> allocsRunning = of_nat (count_class Running resp)
     \<and> length resp = count_class Pending resp + count_class Running resp + count_class Other resp
     \<and> allocsTotal = allocsPending + allocsRunning + of_nat (count_class Other resp)
     \<and> (length resp < 2 ^ 63 \<longrightarrow>
          sint allocsTotal = int (length resp)
        \<and> sint allocsPending = int (count_class Pending resp)
        \<and> sint allocsRunning = int (count_class Running resp)
        \<and> sint allocsTotal = sint allocsPending + sint allocsRunning + int (count_class Other resp))
     \<and> (LastIndex \<noteq> index st \<longrightarrow>
          snd (snd (iteration st (ListOk resp LastIndex ts))) =
            Some (allocsTotal, allocsPending, allocsRunning))"
proof -
  have tot: "allocsTotal = of_nat (length resp)"
    and pen: "allocsPending = of_nat (count_class Pending resp)"
    and run: "allocsRunning = of_nat (count_class Running resp)"
    using assms by (simp_all add: check_response_def count_statuses_counts)
  have part: "length resp =
      count_class Pending resp + count_class Running resp + count_class Other resp"
    by (rule count_class_sum)
  have word_sum: "allocsTotal = allocsPending + allocsRunning + of_nat (count_class Other resp)"
    unfolding tot pen run by (subst part) simp
  have small: "sint allocsTotal = int (length resp)
        \<and> sint allocsPending = int (count_class Pending resp)
        \<and> sint allocsRunning = int (count_class Running resp)
        \<and> sint allocsTotal = sint allocsPending + sint allocsRunning + int (count_class Other resp)"
    if "length resp < 2 ^ 63"
  proof -
    have "count_class Pending resp < 2 ^ 63" and "count_class Running resp < 2 ^ 63"
      using that part by linarith+
    then have "sint allocsTotal = int (length resp)"
      and "sint allocsPending = int (count_class Pending resp)"
      and "sint allocsRunning = int (count_class Running resp)"
      using that by (simp_all only: tot pen run sint_of_nat_small)
    then show ?thesis
      using part by simp
  qed
  have it: "snd (snd (iteration st (ListOk resp LastIndex ts))) =
            Some (allocsTotal, allocsPending, allocsRunning)" if "LastIndex \<noteq> index st"
    using that assms by (simp add: iteration_def Let_def)
  show ?thesis
    using tot pen run part word_sum small it by blast
qed

theorem aggregates_partition_witness:
  "check_response [\<lparr>AllocID = ''a'', ClientStatus = ''running''\<rparr>,
                   \<lparr>AllocID = ''b'', ClientStatus = ''pending''\<rparr>,
                   \<lparr>AllocID = ''c'', ClientStatus = ''complete''\<rparr>,
                   \<lparr>AllocID = ''d'', ClientStatus = ''running''\<rparr>] = (4, 1, 2)
   \<and> count_class Other [\<lparr>AllocID = ''a'', ClientStatus = ''running''\<rparr>,
                   \<lparr>AllocID = ''b'', ClientStatus = ''pending''\<rparr>,
                   \<lparr>AllocID = ''c'', ClientStatus = ''complete''\<rparr>,
                   \<lparr>AllocID = ''d'', ClientStatus = ''running''\<rparr>] = 1
   \<and> sint (4 :: int64) = sint (1 :: int64) + sint (2 :: int64) + 1"
proof -
  have agg: "check_response [\<lparr>AllocID = ''a'', ClientStatus = ''running''\<rparr>,
                   \<lparr>AllocID = ''b'', ClientStatus = ''pending''\<rparr>,
                   \<lparr>AllocID = ''c'', ClientStatus = ''complete''\<rparr>,
                   \<lparr>AllocID = ''d'', ClientStatus = ''running''\<rparr>] = (4, 1, 2)"
    by (simp add: check_response_def AllocClientStatusPending_def AllocClientStatusRunning_def)
  have oth: "count_class Other [\<lparr>AllocID = ''a'', ClientStatus = ''running''\<rparr>,
                   \<lparr>AllocID = ''b'', ClientStatus = ''pending''\<rparr>,
                   \<lparr>AllocID = ''c'', ClientStatus = ''complete''\<rparr>,
                   \<lparr>AllocID = ''d'', ClientStatus = ''running''\<rparr>] = 1"
    by (simp add: count_class_def classify_def)
  show ?thesis
    using aggregates_partition [OF agg, of 6 init_state 10] agg oth by simp
qed

text \<open>
  C10. When the set-up of the status command succeeds, the loop starts with the cursor
  at 1 and the three caches at 0, and the first query it issues has \<^verbatim>\<open>WaitIndex\<close> 1
  and \<^verbatim>\<open>AllowStale\<close> true.
\<close>
theorem status_starts_at_index_one:
  assumes "length Args = 3" and "NewClient = None" and "statusNewClient (Args ! 2) = None"
  shows "handleStatus Args NewClient statusNewClient [] =
           Waiting \<lparr>lastPending = 0, lastRunning = 0, lastTotal = 0, index = 1\<rparr> []
       \<and> (\<exists>st evs. handleStatus Args NewClient statusNewClient (r # rs) =
           Waiting st (AllocsList \<lparr>AllowStale = True, WaitIndex = 1\<rparr> # evs))"
proof -
  obtain st evs where w: "wait_loop init_state (r # rs) = (st, evs)"
    by fastforce
  have "evs = AllocsList \<lparr>AllowStale = True, WaitIndex = 1\<rparr> # tl evs"
    using wait_loop_first_call [of init_state r rs] w
    by (simp add: query_args_def init_state_def del: wait_loop.simps)
  moreover have "handleStatus Args NewClient statusNewClient (r # rs) = Waiting st evs"
    using assms w by (simp add: handleStatus_def del: wait_loop.simps)
  moreover have "handleStatus Args NewClient statusNewClient [] =
      Waiting \<lparr>lastPending = 0, lastRunning = 0, lastTotal = 0, index = 1\<rparr> []"
    using assms by (simp add: handleStatus_def init_state_def)
  ultimately show ?thesis
    by metis
qed

theorem status_starts_at_index_one_witness:
  "handleStatus [''nomad-bench'', ''status'', ''127.0.0.1:8080''] None (\<lambda>addr. None) [ListErr ''EOF''] =
     Waiting \<lparr>lastPending = 0, lastRunning = 0, lastTotal = 0, index = 1\<rparr>
       [AllocsList \<lparr>AllowStale = True, WaitIndex = 1\<rparr>, LogPrintf ''failed querying allocations: EOF'']"
  using status_starts_at_index_one [of "[''nomad-bench'', ''status'', ''127.0.0.1:8080'']" None
      "\<lambda>addr. None" "ListErr ''EOF''" "[]"]
  by (simp add: handleStatus_def init_state_def iteration_def query_args_def)

section \<open>Properties of the run command\<close>

lemma ParseUint_non_digit:
  "\<not> list_all (\<lambda>d. digit_val d \<noteq> None) ds \<Longrightarrow> ParseUint ds n = None"
  by (induction ds arbitrary: n) (auto split: option.splits)

lemma Atoi_non_numeric:
  assumes "\<not> numeric s"
  shows "Atoi s = None"
proof (cases s)
  case Nil
  then show ?thesis by (simp add: Atoi_def)
next
  case (Cons c cs)
  define ds where "ds = (if c = CHR ''+'' \<or> c = CHR ''-'' then cs else s)"
  have "numeric s = (ds \<noteq> [] \<and> list_all (\<lambda>d. digit_val d \<noteq> None) ds)"
    unfolding numeric_def ds_def Cons by (simp only: Let_def list.case)
  with assms have "ds = [] \<or> \<not> list_all (\<lambda>d. digit_val d \<noteq> None) ds"
    by blast
  then have "ds = [] \<or> ParseUint ds 0 = None"
    using ParseUint_non_digit [of ds 0] by auto
  moreover have "Atoi s = (if ds = [] then None else
      (case ParseUint ds 0 of
         None \<Rightarrow> None
       | Some un \<Rightarrow>
           if \<not> c = CHR ''-'' \<and> un \<ge> 2 ^ 63 then None
           else if c = CHR ''-'' \<and> un > 2 ^ 63 then None
           else Some (if c = CHR ''-'' then - int un else int un)))"
    unfolding Atoi_def ds_def Cons by (simp only: Let_def list.case)
  ultimately show ?thesis
    by auto
qed

lemma register_calls_rec:
  "i \<le> k \<Longrightarrow> register_calls apiJob i k =
     JobsRegister (apiJob\<lparr>ID := ''job-'' @ Sprintf_d i\<rparr>) # register_calls apiJob (i + 1) k"
  by (simp add: register_calls_def upto_rec1)

lemma register_calls_empty: "k < i \<Longrightarrow> register_calls apiJob i k = []"
  by (simp add: register_calls_def)

lemma register_calls_ID [simp]:
  "register_calls (apiJob\<lparr>ID := x\<rparr>) i k = register_calls apiJob i k"
  by (simp add: register_calls_def)

lemma register_loop_all_ok:
  "\<forall>n. i \<le> n \<and> n < numJobs \<longrightarrow>
       Register (nat n) (j\<lparr>ID := ''job-'' @ Sprintf_d n\<rparr>) = None \<Longrightarrow>
   register_loop Register (Some j) numJobs i = (Return 0, register_calls j i (numJobs - 1))"
proof (induction Register "Some j" numJobs i arbitrary: j rule: register_loop.induct)
  case (1 Register numJobs i)
  show ?case
  proof (cases "i < numJobs")
    case True
    let ?j' = "j\<lparr>ID := ''job-'' @ Sprintf_d i\<rparr>"
    have here: "Register (nat i) ?j' = None"
      using "1.prems" True by simp
    have later: "\<forall>n. i + 1 \<le> n \<and> n < numJobs \<longrightarrow>
        Register (nat n) (?j'\<lparr>ID := ''job-'' @ Sprintf_d n\<rparr>) = None"
      using "1.prems" by simp
    have "register_loop Register (Some ?j') numJobs (i + 1) =
        (Return 0, register_calls ?j' (i + 1) (numJobs - 1))"
      using "1.hyps" [OF True refl refl here later] .
    then show ?thesis
      using True here
      by (subst register_loop.simps) (simp add: register_calls_rec [of i "numJobs - 1"])
  next
    case False
    then show ?thesis
      by (subst register_loop.simps) (simp add: register_calls_empty)
  qed
qed

lemma register_loop_fails_at:
  "i \<le> f \<Longrightarrow> f < numJobs \<Longrightarrow>
   \<forall>n. i \<le> n \<and> n < f \<longrightarrow> Register (nat n) (j\<lparr>ID := ''job-'' @ Sprintf_d n\<rparr>) = None \<Longrightarrow>
   Register (nat f) (j\<lparr>ID := ''job-'' @ Sprintf_d f\<rparr>) = Some err \<Longrightarrow>
   register_loop Register (Some j) numJobs i =
     (Fatal (''failed registering jobs: '' @ err), register_calls j i f)"
proof (induction Register "Some j" numJobs i arbitrary: j rule: register_loop.induct)
  case (1 Register numJobs i)
  let ?j' = "j\<lparr>ID := ''job-'' @ Sprintf_d i\<rparr>"
  have lt: "i < numJobs"
    using "1.prems" by simp
  show ?case
  proof (cases "i = f")
    case True
    then show ?thesis
      using "1.prems" lt
      by (subst register_loop.simps)
        (simp add: register_calls_rec [of f f] register_calls_empty)
  next
    case False
    then have le: "i + 1 \<le> f"
      using "1.prems" by simp
    have here: "Register (nat i) ?j' = None"
      using "1.prems" False by simp
    have later: "\<forall>n. i + 1 \<le> n \<and> n < f \<longrightarrow>
        Register (nat n) (?j'\<lparr>ID := ''job-'' @ Sprintf_d n\<rparr>) = None"
      using "1.prems" by simp
    have fails: "Register (nat f) (?j'\<lparr>ID := ''job-'' @ Sprintf_d f\<rparr>) = Some err"
      using "1.prems" by simp
    have "register_loop Register (Some ?j') numJobs (i + 1) =
        (Fatal (''failed registering jobs: '' @ err), register_calls ?j' (i + 1) f)"
      using "1.hyps" [OF lt refl refl here le "1.prems"(2) later fails] .
    then show ?thesis
      using lt here "1.prems"(1)
      by (subst register_loop.simps) (simp add: register_calls_rec [of i f])
  qed
qed

lemma length_register_calls: "length (register_calls apiJob 0 (k - 1)) = nat k"
  by (simp add: register_calls_def)

lemma register_loop_none: "numJobs \<le> i \<Longrightarrow> register_loop Register apiJob numJobs i = (Return 0, [])"
  by (subst register_loop.simps) simp

text \<open>
  C5. The run command has got as far as its submission loop: two arguments, a count
  \<open>K\<close> read from the environment, the job file parsed and converted to \<open>apiJob\<close>, the
  client created. If every registration succeeds, the command makes exactly the
  registrations of \<open>job-0\<close>, \<open>\<dots>\<close>, \<open>job-(K-1)\<close>, in this order, \<open>K\<close> of them, and
  returns 0. If the registrations of \<open>job-0\<close>, \<open>\<dots>\<close>, \<open>job-(f-1)\<close> succeed and that
  of \<open>job-f\<close> fails, the command ends fatally, having made these \<open>f + 1\<close> registrations
  and no other.
\<close>
theorem run_registers_in_order:
  assumes "length Args = 2"
    and "Atoi (Getenv env ''NOMAD_NUM_JOBS'') = Some K"
    and "ParseFile ''job.nomad'' = Inr job"
    and "convertStructJob Encode Decode job = (Some apiJob, None)"
    and "NewClient = None"
  shows "((\<forall>n. 0 \<le> n \<and> n < K \<longrightarrow>
             Register (nat n) (apiJob\<lparr>ID := ''job-'' @ Sprintf_d n\<rparr>) = None) \<longrightarrow>
          handleRun Args env ParseFile Encode Decode NewClient Register =
            (Return 0, register_calls apiJob 0 (K - 1)))
       \<and> (0 \<le> f \<and> f < K
           \<and> (\<forall>n. 0 \<le> n \<and> n < f \<longrightarrow>
                 Register (nat n) (apiJob\<lparr>ID := ''job-'' @ Sprintf_d n\<rparr>) = None)
           \<and> Register (nat f) (apiJob\<lparr>ID := ''job-'' @ Sprintf_d f\<rparr>) = Some err \<longrightarrow>
          handleRun Args env ParseFile Encode Decode NewClient Register =
            (Fatal (''failed registering jobs: '' @ err), register_calls apiJob 0 f))
       \<and> length (register_calls apiJob 0 (K - 1)) = nat K"
proof -
  have run: "handleRun Args env ParseFile Encode Decode NewClient Register =
      register_loop Register (Some apiJob) K 0"
    using assms by (simp add: handleRun_def)
  show ?thesis
    unfolding run
    using register_loop_all_ok [of 0 K Register apiJob]
      register_loop_fails_at [of 0 f K Register apiJob err]
      length_register_calls [of apiJob K]
    by blast
qed

theorem run_registers_in_order_witness:
  "handleRun [''nomad-bench'', ''run''] [''NOMAD_NUM_JOBS'' \<mapsto> ''3''] (\<lambda>path. Inr ())
      (\<lambda>j. ((), None)) (\<lambda>b. (Some \<lparr>ID = ''bench'', Body = ''redis''\<rparr>, None)) None
      (\<lambda>n j. None) =
     (Return 0, [JobsRegister \<lparr>ID = ''job-0'', Body = ''redis''\<rparr>,
                 JobsRegister \<lparr>ID = ''job-1'', Body = ''redis''\<rparr>,
                 JobsRegister \<lparr>ID = ''job-2'', Body = ''redis''\<rparr>])
   \<and> handleRun [''nomad-bench'', ''run''] [''NOMAD_NUM_JOBS'' \<mapsto> ''3''] (\<lambda>path. Inr ())
      (\<lambda>j. ((), None)) (\<lambda>b. (Some \<lparr>ID = ''bench'', Body = ''redis''\<rparr>, None)) None
      (\<lambda>n j. if n = 1 then Some ''boom'' else None) =
     (Fatal ''failed registering jobs: boom'',
      [JobsRegister \<lparr>ID = ''job-0'', Body = ''redis''\<rparr>,
       JobsRegister \<lparr>ID = ''job-1'', Body = ''redis''\<rparr>])"
proof -
  have a: "length [''nomad-bench'', ''run''] = 2"
    by simp
  have k: "Atoi (Getenv [''NOMAD_NUM_JOBS'' \<mapsto> ''3''] ''NOMAD_NUM_JOBS'') = Some 3"
    by (simp add: Atoi_def Getenv_def digit_val_def)
  have p: "(\<lambda>path :: string. Inr () :: error + unit) ''job.nomad'' = Inr ()"
    by simp
  have c: "convertStructJob (\<lambda>j :: unit. ((), None))
      (\<lambda>b :: unit. (Some \<lparr>ID = ''bench'', Body = ''redis''\<rparr>, None)) () =
      (Some \<lparr>ID = ''bench'', Body = ''redis''\<rparr>, None)"
    by (simp add: convertStructJob_def)
  have ids: "[0..2] = [0, 1, 2 :: int]" "[0..1] = [0, 1 :: int]"
    by (simp_all add: upto_rec1)
  show ?thesis
    using run_registers_in_order [OF a k p c refl, of "\<lambda>n j. None" 1 "''boom''"]
      run_registers_in_order [OF a k p c refl, of "\<lambda>n j. if n = 1 then Some ''boom'' else None" 1 "''boom''"]
    by (simp add: register_calls_def Sprintf_d_def ids)
qed

text \<open>
  C6 (as amended). The run command requires its count to be numeric: whenever
  \<^verbatim>\<open>strconv.Atoi\<close> rejects the value of \<^verbatim>\<open>NOMAD_NUM_JOBS\<close>, which it does for
  every value that is not numeric and so for a variable that is not set, the command ends
  fatally without a registration (with the diagnostic for the count when it was started
  with the right number of arguments). A count that is zero or negative is accepted:
  when the job file parses and converts and the client is created, the command makes no
  registration and returns 0.
\<close>
theorem run_rejects_non_numeric_count:
  "(Atoi (Getenv env ''NOMAD_NUM_JOBS'') = None \<longrightarrow>
      (\<exists>msg. handleRun Args env ParseFile Encode Decode NewClient Register = (Fatal msg, [])))
   \<and> (length Args = 2 \<and> Atoi (Getenv env ''NOMAD_NUM_JOBS'') = None \<longrightarrow>
        handleRun Args env ParseFile Encode Decode NewClient Register =
          (Fatal ''NOMAD_NUM_JOBS must be numeric'', []))
   \<and> (\<not> numeric (Getenv env ''NOMAD_NUM_JOBS'') \<longrightarrow> Atoi (Getenv env ''NOMAD_NUM_JOBS'') = None)
   \<and> (env ''NOMAD_NUM_JOBS'' = None \<longrightarrow> \<not> numeric (Getenv env ''NOMAD_NUM_JOBS''))
   \<and> (length Args = 2 \<and> Atoi (Getenv env ''NOMAD_NUM_JOBS'') = Some K \<and> K \<le> 0
        \<and> ParseFile ''job.nomad'' = Inr job
        \<and> snd (convertStructJob Encode Decode job) = None \<and> NewClient = None \<longrightarrow>
        handleRun Args env ParseFile Encode Decode NewClient Register = (Return 0, []))"
proof -
  have fatal: "\<exists>msg. handleRun Args env ParseFile Encode Decode NewClient Register = (Fatal msg, [])"
    if "Atoi (Getenv env ''NOMAD_NUM_JOBS'') = None"
    using that by (simp add: handleRun_def)
  have msg: "handleRun Args env ParseFile Encode Decode NewClient Register =
      (Fatal ''NOMAD_NUM_JOBS must be numeric'', [])"
    if "length Args = 2" and "Atoi (Getenv env ''NOMAD_NUM_JOBS'') = None"
    using that by (simp add: handleRun_def)
  have missing: "\<not> numeric (Getenv env ''NOMAD_NUM_JOBS'')" if "env ''NOMAD_NUM_JOBS'' = None"
    using that by (simp add: Getenv_def numeric_def)
  have accepted: "handleRun Args env ParseFile Encode Decode NewClient Register = (Return 0, [])"
    if "length Args = 2" and "Atoi (Getenv env ''NOMAD_NUM_JOBS'') = Some K" and "K \<le> 0"
      and "ParseFile ''job.nomad'' = Inr job"
      and "snd (convertStructJob Encode Decode job) = None" and "NewClient = None"
    using that
    by (cases "convertStructJob Encode Decode job") (simp add: handleRun_def register_loop_none)
  show ?thesis
    using fatal msg missing accepted Atoi_non_numeric [of "Getenv env ''NOMAD_NUM_JOBS''"]
    by blast
qed

theorem run_rejects_non_numeric_count_witness:
  "handleRun [''nomad-bench'', ''run''] [''NOMAD_NUM_JOBS'' \<mapsto> ''many''] (\<lambda>path. Inr ())
      (\<lambda>j. ((), None)) (\<lambda>b. (Some \<lparr>ID = ''bench'', Body = ''redis''\<rparr>, None)) None
      (\<lambda>n j. None) = (Fatal ''NOMAD_NUM_JOBS must be numeric'', [])
   \<and> handleRun [''nomad-bench'', ''run''] Map.empty (\<lambda>path. Inr ())
      (\<lambda>j. ((), None)) (\<lambda>b. (Some \<lparr>ID = ''bench'', Body = ''redis''\<rparr>, None)) None
      (\<lambda>n j. None) = (Fatal ''NOMAD_NUM_JOBS must be numeric'', [])
   \<and> handleRun [''nomad-bench'', ''run''] [''NOMAD_NUM_JOBS'' \<mapsto> ''-5''] (\<lambda>path. Inr ())
      (\<lambda>j. ((), None)) (\<lambda>b. (Some \<lparr>ID = ''bench'', Body = ''redis''\<rparr>, None)) None
      (\<lambda>n j. None) = (Return 0, [])"
proof -
  have n1: "\<not> numeric (Getenv [''NOMAD_NUM_JOBS'' \<mapsto> ''many''] ''NOMAD_NUM_JOBS'')"
    by (simp add: numeric_def Getenv_def digit_val_def)
  have n2: "(Map.empty :: string \<rightharpoonup> string) ''NOMAD_NUM_JOBS'' = None"
    by simp
  have k: "Atoi (Getenv [''NOMAD_NUM_JOBS'' \<mapsto> ''-5''] ''NOMAD_NUM_JOBS'') = Some (- 5)"
    by (simp add: Atoi_def Getenv_def digit_val_def)
  have c: "snd (convertStructJob (\<lambda>j :: unit. ((), None))
      (\<lambda>b :: unit. (Some \<lparr>ID = ''bench'', Body = ''redis''\<rparr>, None)) ()) = None"
    by (simp add: convertStructJob_def)
  show ?thesis
    using run_rejects_non_numeric_count [of "[''NOMAD_NUM_JOBS'' \<mapsto> ''many'']"
        "[''nomad-bench'', ''run'']" "\<lambda>path. Inr ()" "\<lambda>j. ((), None)"
        "\<lambda>b. (Some \<lparr>ID = ''bench'', Body = ''redis''\<rparr>, None)" None "\<lambda>n j. None" 0 "()"]
      run_rejects_non_numeric_count [of Map.empty
        "[''nomad-bench'', ''run'']" "\<lambda>path. Inr ()" "\<lambda>j. ((), None)"
        "\<lambda>b. (Some \<lparr>ID = ''bench'', Body = ''redis''\<rparr>, None)" None "\<lambda>n j. None" 0 "()"]
      run_rejects_non_numeric_count [of "[''NOMAD_NUM_JOBS'' \<mapsto> ''-5'']"
        "[''nomad-bench'', ''run'']" "\<lambda>path. Inr ()" "\<lambda>j. ((), None)"
        "\<lambda>b. (Some \<lparr>ID = ''bench'', Body = ''redis''\<rparr>, None)" None "\<lambda>n j. None" "- 5" "()"]
      n1 n2 k c
    by simp
qed

text \<open>
  C6 as stated fails: with \<^verbatim>\<open>NOMAD_NUM_JOBS=0\<close>, not a positive integer, the
  command goes on and returns 0.
\<close>
theorem run_accepts_zero_counterexample:
  "handleRun [''nomad-bench'', ''run''] [''NOMAD_NUM_JOBS'' \<mapsto> ''0''] (\<lambda>path. Inr ())
      (\<lambda>j. ((), None)) (\<lambda>b. (Some \<lparr>ID = ''bench'', Body = ''redis''\<rparr>, None)) None
      (\<lambda>n j. None) = (Return 0, [])"
  by (simp add: handleRun_def Atoi_def Getenv_def digit_val_def convertStructJob_def
      register_loop_none)

section \<open>Properties of the transcoder and of the teardown command\<close>

text \<open>
  C7. \<^verbatim>\<open>convertStructJob\<close> returns a nil job with the error of the step that failed
  when the encode step fails and when the decode step fails, whatever the decode step
  left in the destination; when both succeed it returns the decoded job with a nil error.
  A non-nil error never comes with a job.
\<close>
theorem convertStructJob_nil_on_failure:
  "(snd (Encode in') = Some err \<longrightarrow>
      convertStructJob Encode Decode in' = (None, Some err))
   \<and> (snd (Encode in') = None \<and> snd (Decode (fst (Encode in'))) = Some err \<longrightarrow>
      convertStructJob Encode Decode in' = (None, Some err))
   \<and> (snd (Encode in') = None \<and> snd (Decode (fst (Encode in'))) = None \<longrightarrow>
      convertStructJob Encode Decode in' = (fst (Decode (fst (Encode in'))), None))
   \<and> (snd (convertStructJob Encode Decode in') \<noteq> None \<longrightarrow>
      fst (convertStructJob Encode Decode in') = None)"
  by (cases "Encode in'"; cases "Decode (fst (Encode in'))")
    (auto simp: convertStructJob_def split: option.splits)

theorem convertStructJob_nil_on_failure_witness:
  "convertStructJob (\<lambda>j :: unit. (''gob-bytes'', None))
     (\<lambda>b. (Some \<lparr>ID = ''bench'', Body = ''''\<rparr>, Some ''gob: type mismatch'')) () =
     (None, Some ''gob: type mismatch'')"
  using convertStructJob_nil_on_failure [of "\<lambda>j :: unit. (''gob-bytes'', None)" "()"
      "''gob: type mismatch''" "\<lambda>b. (Some \<lparr>ID = ''bench'', Body = ''''\<rparr>, Some ''gob: type mismatch'')"]
  by simp

text \<open>
  C9. When the teardown command is started with its directory argument, the client is
  created and the listing succeeds with no job, the command makes no deregistration call:
  after the listing its only call is the removal of the directory, and it returns 0 when
  that removal succeeds (it ends fatally when it does not).
\<close>
theorem teardown_without_jobs:
  assumes "length Args = 3" and "NewClient = None" and "List = Inr []"
  shows "handleTeardown Args NewClient List Deregister osRemoveAll =
     ((case osRemoveAll (Args ! 2) of
         None \<Rightarrow> Return 0
       | Some err \<Rightarrow> Fatal (''failed cleaning up temp dir: '' @ err)),
      [JobsList, RemoveAll (Args ! 2)])"
  using assms by (simp add: handleTeardown_def split: option.splits)

theorem teardown_without_jobs_witness:
  "handleTeardown [''nomad-bench'', ''teardown'', ''/tmp/bench''] None (Inr [])
     (\<lambda>n id. Some ''unreachable'') (\<lambda>dir. None) =
   (Return 0, [JobsList, RemoveAll ''/tmp/bench''])"
  using teardown_without_jobs [of "[''nomad-bench'', ''teardown'', ''/tmp/bench'']" None "Inr []"
      "\<lambda>n id. Some ''unreachable''" "\<lambda>dir. None"]
  by simp

end
